theory Spec2Isabelle
  imports Complex_Main "HOL-Library.Word"
begin

section \<open>Values thrown and effects performed\<close>

text \<open>
  A JavaScript \<^verbatim>\<open>throw\<close> (or a rejected promise) carries any value. The code only asks
  whether the value is an instance of \<^verbatim>\<open>Error\<close>, and if so reads its \<^verbatim>\<open>message\<close>.
\<close>

datatype thrown =
    ErrorObj string  \<comment> \<open>an instance of \<^verbatim>\<open>Error\<close>, with its message\<close>
  | NonError         \<comment> \<open>any other thrown value\<close>

text \<open>The calls that touch the file's content or the external extraction library.\<close>

datatype event =
    FileText            \<comment> \<open>\<^verbatim>\<open>file.text()\<close>\<close>
  | FileArrayBuffer     \<comment> \<open>\<^verbatim>\<open>file.arrayBuffer()\<close>\<close>
  | OfficeExtractText   \<comment> \<open>\<^verbatim>\<open>officeExtractor.extractText(...)\<close>\<close>

text \<open>
  An awaited computation: the events it performed, in order, and how it ended
  (\<open>Inl\<close>: it threw or rejected; \<open>Inr\<close>: it returned or resolved).
\<close>

type_synonym 'a io = "event list \<times> (thrown + 'a)"

definition io_return :: "'a \<Rightarrow> 'a io" where
  "io_return x = ([], Inr x)"

definition io_throw :: "thrown \<Rightarrow> 'a io" where
  "io_throw e = ([], Inl e)"

definition io_pure :: "thrown + 'a \<Rightarrow> 'a io" where
  \<comment> \<open>a synchronous call that performs none of the events\<close>
  "io_pure r = ([], r)"

definition io_bind :: "'a io \<Rightarrow> ('a \<Rightarrow> 'b io) \<Rightarrow> 'b io" where
  \<comment> \<open>sequencing: a throw skips the rest\<close>
  "io_bind m k =
     (case m of
        (l, Inl e) \<Rightarrow> (l, Inl e)
      | (l, Inr x) \<Rightarrow> (case k x of (l', r) \<Rightarrow> (l @ l', r)))"

definition io_catch :: "'a io \<Rightarrow> (thrown \<Rightarrow> 'a io) \<Rightarrow> 'a io" where
  \<comment> \<open>\<^verbatim>\<open>try { m } catch (e) { h e }\<close>\<close>
  "io_catch m h =
     (case m of
        (l, Inl e) \<Rightarrow> (case h e of (l', r) \<Rightarrow> (l @ l', r))
      | (l, Inr x) \<Rightarrow> (l, Inr x))"

definition events :: "'a io \<Rightarrow> event list" where
  "events m = fst m"

definition outcome :: "'a io \<Rightarrow> thrown + 'a" where
  "outcome m = snd m"

definition error_message :: "thrown \<Rightarrow> string \<Rightarrow> string" where
  \<comment> \<open>\<^verbatim>\<open>error instanceof Error ? error.message : fallback\<close>\<close>
  "error_message error fallback =
     (case error of ErrorObj message \<Rightarrow> message | NonError \<Rightarrow> fallback)"

section \<open>Files, results and the runtime\<close>

type_synonym bytes = "8 word list"

text \<open>
  A \<^verbatim>\<open>File\<close>: its declared media type, its name, and what reading it as text and as
  raw bytes gives (either read may reject).
\<close>

record File =
  file_type :: string
  file_name :: string
  file_text :: "thrown + string"
  file_arrayBuffer :: "thrown + bytes"

text \<open>\<^verbatim>\<open>interface TextExtractionResult { text: string; error?: string }\<close>\<close>

record TextExtractionResult =
  res_text :: string
  res_error :: "string option"

text \<open>
  What the code calls and the repository does not define: the built-in
  \<^verbatim>\<open>JSON.parse\<close> and \<^verbatim>\<open>JSON.stringify(value, null, space)\<close>, \<^verbatim>\<open>Buffer.from\<close>, and the
  \<^verbatim>\<open>extractText\<close> method of the object that \<^verbatim>\<open>getTextExtractor()\<close> of package
  \<^verbatim>\<open>office-text-extractor\<close> returns. They are parameters; \<open>'j\<close> is the type of the
  values \<^verbatim>\<open>JSON.parse\<close> returns. Each of them may throw: \<^verbatim>\<open>JSON.stringify\<close> does on a value
  nested too deep or too large to serialize (a \<^verbatim>\<open>RangeError\<close>).
\<close>

record 'j runtime =
  json_parse :: "string \<Rightarrow> thrown + 'j"
  json_stringify :: "'j \<Rightarrow> nat \<Rightarrow> thrown + string"
  buffer_from :: "bytes \<Rightarrow> thrown + bytes"
  office_extractText :: "bytes \<Rightarrow> thrown + string"

definition read_text :: "File \<Rightarrow> string io" where
  \<comment> \<open>\<^verbatim>\<open>await file.text()\<close>\<close>
  "read_text file = ([FileText], file_text file)"

definition read_arrayBuffer :: "File \<Rightarrow> bytes io" where
  \<comment> \<open>\<^verbatim>\<open>await file.arrayBuffer()\<close>\<close>
  "read_arrayBuffer file = ([FileArrayBuffer], file_arrayBuffer file)"

definition call_office_extractText :: "'j runtime \<Rightarrow> bytes \<Rightarrow> string io" where
  \<comment> \<open>\<^verbatim>\<open>await this.officeExtractor.extractText({ input: buffer, type: 'buffer' })\<close>\<close>
  "call_office_extractText rt buffer = ([OfficeExtractText], office_extractText rt buffer)"

section \<open>TextExtractor\<close>

definition supportedTypes :: "string list" where
  "supportedTypes =
     [''application/vnd.openxmlformats-officedocument.wordprocessingml.document'',
      ''application/vnd.openxmlformats-officedocument.presentationml.presentation'',
      ''application/vnd.openxmlformats-officedocument.spreadsheetml.sheet'',
      ''application/pdf'']"

definition isOfficeDocument :: "string \<Rightarrow> bool" where
  \<comment> \<open>\<^verbatim>\<open>supportedTypes.includes(mimeType)\<close>\<close>
  "isOfficeDocument mimeType \<longleftrightarrow> mimeType \<in> set supportedTypes"

definition extractPlainText :: "'j runtime \<Rightarrow> File \<Rightarrow> TextExtractionResult io" where
  "extractPlainText rt file =
     io_catch
       (io_bind (read_text file) (\<lambda>text.
          if file_type file = ''application/json'' then
            io_catch
              (io_bind (io_pure (json_parse rt text)) (\<lambda>jsonObj.
               io_bind (io_pure (json_stringify rt jsonObj 2)) (\<lambda>pretty.
                 io_return \<lparr>res_text = pretty, res_error = None\<rparr>)))
              (\<lambda>_. io_return \<lparr>res_text = text, res_error = None\<rparr>)
          else io_return \<lparr>res_text = text, res_error = None\<rparr>))
       (\<lambda>error. io_return
          \<lparr>res_text = [], res_error = Some (error_message error ''Failed to read text file'')\<rparr>)"

definition extractOfficeDocument :: "'j runtime \<Rightarrow> File \<Rightarrow> TextExtractionResult io" where
  "extractOfficeDocument rt file =
     io_catch
       (io_bind (read_arrayBuffer file) (\<lambda>arrayBuffer.
        io_bind (io_pure (buffer_from rt arrayBuffer)) (\<lambda>buffer.
        io_bind (call_office_extractText rt buffer) (\<lambda>text.
          io_return \<lparr>res_text = text, res_error = None\<rparr>))))
       (\<lambda>error. io_return
          \<lparr>res_text = [],
           res_error = Some (error_message error ''Failed to extract text from office document'')\<rparr>)"

definition extractText_try :: "'j runtime \<Rightarrow> File \<Rightarrow> TextExtractionResult io" where
  \<comment> \<open>the body of the \<^verbatim>\<open>try\<close> block of \<^verbatim>\<open>extractText\<close>\<close>
  "extractText_try rt file =
     (if file_type file = ''text/plain'' \<or> file_type file = ''application/json'' then
        extractPlainText rt file
      else if isOfficeDocument (file_type file) then
        extractOfficeDocument rt file
      else
        io_return
          \<lparr>res_text = [], res_error = Some (''Unsupported file type: '' @ file_type file)\<rparr>)"

definition extractText_catch :: "thrown \<Rightarrow> TextExtractionResult io" where
  \<comment> \<open>the \<^verbatim>\<open>catch\<close> block of \<^verbatim>\<open>extractText\<close>\<close>
  "extractText_catch error =
     io_return \<lparr>res_text = [], res_error = Some (error_message error ''Unknown error occurred'')\<rparr>"

definition extractText :: "'j runtime \<Rightarrow> File \<Rightarrow> TextExtractionResult io" where
  "extractText rt file = io_catch (extractText_try rt file) extractText_catch"

section \<open>FileHandler\<close>

definition processFile :: "'j runtime \<Rightarrow> File \<Rightarrow> string io" where
  \<comment> \<open>\<^verbatim>\<open>if (result.error)\<close> holds when the field is present and not the empty string\<close>
  "processFile rt file =
     io_bind (extractText rt file) (\<lambda>result.
       case res_error result of
         Some message \<Rightarrow>
           if message \<noteq> [] then io_throw (ErrorObj message)
           else io_return (res_text result)
       | None \<Rightarrow> io_return (res_text result))"

text \<open>
  \<^verbatim>\<open>Promise.all\<close> over promises that settle one at a time. The promise it returns is
  pending (\<open>None\<close>), rejected (\<open>Some (Inl reason)\<close>) or fulfilled with the array of
  values (\<open>Some (Inr values)\<close>). Each input promise has a slot in \<open>all_values\<close>
  (\<open>None\<close>: not filled yet) and \<open>all_remaining\<close> counts the promises not yet fulfilled.
  The whole is resolved when the count reaches zero; every slot is filled then
  (\<open>all_values_full\<close> below), so \<open>map the\<close> reads the values off the slots.
\<close>

record 'a all_state =
  all_values :: "'a option list"
  all_remaining :: nat
  all_settled :: "(thrown + 'a list) option"

definition all_start :: "nat \<Rightarrow> 'a all_state" where
  \<comment> \<open>after the synchronous loop over \<open>n\<close> promises: an empty input resolves at once\<close>
  "all_start n =
     \<lparr>all_values = replicate n None,
      all_remaining = n,
      all_settled = (if n = 0 then Some (Inr []) else None)\<rparr>"

definition all_settle :: "(thrown + 'a) list \<Rightarrow> 'a all_state \<Rightarrow> nat \<Rightarrow> 'a all_state" where
  \<comment> \<open>promise \<open>i\<close> settles with \<open>outs ! i\<close>: a rejection rejects the whole unless it is
      settled already; a value fills its slot once, and the last one to be filled
      resolves the whole with the slots in index order\<close>
  "all_settle outs s i =
     (if length outs \<le> i then s
      else case outs ! i of
        Inl reason \<Rightarrow>
          (if all_settled s = None then s\<lparr>all_settled := Some (Inl reason)\<rparr> else s)
      | Inr v \<Rightarrow>
          (if all_values s ! i = None then
             let vs = (all_values s)[i := Some v];
                 r = all_remaining s - 1
             in \<lparr>all_values = vs,
                 all_remaining = r,
                 all_settled =
                   (if r = 0 \<and> all_settled s = None then Some (Inr (map the vs))
                    else all_settled s)\<rparr>
           else s))"

definition all_run :: "(thrown + 'a) list \<Rightarrow> nat list \<Rightarrow> 'a all_state" where
  \<comment> \<open>the state once the promises listed in \<open>order\<close> have settled, one after the other\<close>
  "all_run outs order = foldl (all_settle outs) (all_start (length outs)) order"

definition promise_all :: "(thrown + 'a) list \<Rightarrow> nat list \<Rightarrow> (thrown + 'a list) option" where
  \<comment> \<open>\<open>order\<close>: the indices of the input promises in the order in which they settle\<close>
  "promise_all outs order = all_settled (all_run outs order)"

definition processFiles :: "'j runtime \<Rightarrow> nat list \<Rightarrow> File list \<Rightarrow> (thrown + string list) option" where
  \<comment> \<open>\<^verbatim>\<open>await Promise.all(files.map(file => this.processFile(file)))\<close>; \<open>None\<close>: the
      promise never settles\<close>
  "processFiles rt order files =
     promise_all (map (\<lambda>file. outcome (processFile rt file)) files) order"

text \<open>
  Notions for reasoning about \<open>all_run\<close>: the promises that reject, the content of a
  slot after a run, the indices whose slots are filled, and the closed form of the state
  of the promise that \<^verbatim>\<open>Promise.all\<close> returned (proved equal to \<open>promise_all\<close> below).
\<close>

definition rejects :: "(thrown + 'a) list \<Rightarrow> nat \<Rightarrow> bool" where
  "rejects outs i \<longleftrightarrow> i < length outs \<and> isl (outs ! i)"

definition slot :: "(thrown + 'a) list \<Rightarrow> nat list \<Rightarrow> nat \<Rightarrow> 'a option" where
  "slot outs xs k =
     (if k \<in> set xs then (case outs ! k of Inl _ \<Rightarrow> None | Inr v \<Rightarrow> Some v) else None)"

definition filled :: "(thrown + 'a) list \<Rightarrow> nat list \<Rightarrow> nat set" where
  "filled outs xs = {k \<in> set xs. k < length outs \<and> \<not> isl (outs ! k)}"

definition all_outcome :: "(thrown + 'a) list \<Rightarrow> nat list \<Rightarrow> (thrown + 'a list) option" where
  "all_outcome outs xs =
     (case find (rejects outs) xs of
        Some i \<Rightarrow> Some (Inl (projl (outs ! i)))
      | None \<Rightarrow> if {..<length outs} \<subseteq> set xs then Some (Inr (map projr outs)) else None)"

section \<open>The classification rule of the specification\<close>

datatype category = PlainText | OfficeDocument | Unsupported

text \<open>
  The rule as the specification words it, first match wins: exactly \<^verbatim>\<open>text/plain\<close> or
  \<^verbatim>\<open>application/json\<close> is the plain-text category; one of the four office and document
  types is the office category; anything else is unsupported. It is compared below with
  the branches of \<open>extractText\<close>.
\<close>

definition spec_category :: "string \<Rightarrow> category" where
  "spec_category t =
     (if t = ''text/plain'' \<or> t = ''application/json'' then PlainText
      else if t \<in> {''application/vnd.openxmlformats-officedocument.wordprocessingml.document'',
                    ''application/vnd.openxmlformats-officedocument.presentationml.presentation'',
                    ''application/vnd.openxmlformats-officedocument.spreadsheetml.sheet'',
                    ''application/pdf''} then OfficeDocument
      else Unsupported)"

section \<open>JSON values\<close>

text \<open>
  The values \<^verbatim>\<open>JSON.parse\<close> returns: \<^verbatim>\<open>null\<close>, booleans, numbers, strings, arrays and
  objects (their properties in order). A number is a finite one, given by its value, or
  one of the two infinities, which is what a numeral beyond the range of a double parses
  to.
\<close>

datatype jsnumber = Finite rat | PosInfinity | NegInfinity

datatype json =
    JNull
  | JBool bool
  | JNumber jsnumber
  | JString string
  | JArray "json list"
  | JObject "(string \<times> json) list"



section \<open>A concrete runtime and concrete files\<close>

text \<open>
  For evaluating the code on inputs. \<open>sample_json_parse\<close> agrees with \<^verbatim>\<open>JSON.parse\<close> on
  the texts \<^verbatim>\<open>null\<close>, \<^verbatim>\<open>true\<close>, \<^verbatim>\<open>false\<close>, \<^verbatim>\<open>1e400\<close> (the number \<^verbatim>\<open>Infinity\<close>) and \<^verbatim>\<open>{not json\<close>
  (a \<^verbatim>\<open>SyntaxError\<close>); no other text is used below. \<open>sample_json_stringify\<close> agrees with
  \<^verbatim>\<open>JSON.stringify(v, null, space)\<close> on \<^verbatim>\<open>null\<close>, the booleans and the infinities (a number
  that is not finite is serialized as \<^verbatim>\<open>null\<close>); on any other value it throws, as a
  serializer that gives up.
\<close>

definition sample_json_parse :: "string \<Rightarrow> thrown + json" where
  "sample_json_parse s =
     (if s = ''null'' then Inr JNull
      else if s = ''true'' then Inr (JBool True)
      else if s = ''false'' then Inr (JBool False)
      else if s = ''1e400'' then Inr (JNumber PosInfinity)
      else Inl (ErrorObj ''SyntaxError''))"

definition sample_json_stringify :: "json \<Rightarrow> nat \<Rightarrow> thrown + string" where
  "sample_json_stringify v space =
     (case v of
        JNull \<Rightarrow> Inr ''null''
      | JBool b \<Rightarrow> Inr (if b then ''true'' else ''false'')
      | JNumber n \<Rightarrow>
          (case n of
             Finite q \<Rightarrow> Inl (ErrorObj ''RangeError'')
           | PosInfinity \<Rightarrow> Inr ''null''
           | NegInfinity \<Rightarrow> Inr ''null'')
      | JString s \<Rightarrow> Inl (ErrorObj ''RangeError'')
      | JArray vs \<Rightarrow> Inl (ErrorObj ''RangeError'')
      | JObject ms \<Rightarrow> Inl (ErrorObj ''RangeError''))"

definition sample_runtime :: "json runtime" where
  "sample_runtime =
     \<lparr>json_parse = sample_json_parse,
      json_stringify = sample_json_stringify,
      buffer_from = Inr,
      office_extractText = (\<lambda>buffer. Inr ''extracted'')\<rparr>"

definition sample_file :: "string \<Rightarrow> string \<Rightarrow> File" where
  \<comment> \<open>a readable file of the given declared type and textual content\<close>
  "sample_file t content =
     \<lparr>file_type = t, file_name = ''sample'', file_text = Inr content, file_arrayBuffer = Inr []\<rparr>"

definition unreadable_file :: "string \<Rightarrow> thrown \<Rightarrow> File" where
  \<comment> \<open>a file of the given declared type whose reads reject\<close>
  "unreadable_file t e =
     \<lparr>file_type = t, file_name = ''sample'', file_text = Inl e, file_arrayBuffer = Inl e\<rparr>"

definition sample_batch :: "File list" where
  "sample_batch =
     [sample_file ''text/plain'' ''first'',
      sample_file ''application/json'' ''true'',
      sample_file ''application/pdf'' ''%PDF'']"

definition failing_batch :: "File list" where
  "failing_batch =
     [sample_file ''text/plain'' ''first'',
      sample_file ''image/png'' ''PNG'',
      unreadable_file ''text/plain'' (ErrorObj ''denied'')]"

definition empty_message_batch :: "File list" where
  \<comment> \<open>the read of the second file rejects with an \<^verbatim>\<open>Error\<close> whose message is empty\<close>
  "empty_message_batch =
     [sample_file ''text/plain'' ''a'',
      unreadable_file ''text/plain'' (ErrorObj [])]"

section \<open>What the two private extractors return\<close>

lemmas io_defs = io_return_def io_throw_def io_pure_def io_bind_def io_catch_def

lemma extractPlainText_eq:
  "extractPlainText rt file =
     ([FileText],
      Inr (case file_text file of
             Inl error \<Rightarrow>
               \<lparr>res_text = [], res_error = Some (error_message error ''Failed to read text file'')\<rparr>
           | Inr text \<Rightarrow>
               if file_type file = ''application/json'' then
                 (case json_parse rt text of
                    Inl _ \<Rightarrow> \<lparr>res_text = text, res_error = None\<rparr>
                  | Inr jsonObj \<Rightarrow>
                      (case json_stringify rt jsonObj 2 of
                         Inl _ \<Rightarrow> \<lparr>res_text = text, res_error = None\<rparr>
                       | Inr pretty \<Rightarrow> \<lparr>res_text = pretty, res_error = None\<rparr>))
               else \<lparr>res_text = text, res_error = None\<rparr>))"
  by (simp add: extractPlainText_def read_text_def io_defs split: sum.split)

lemma extractOfficeDocument_eq:
  "extractOfficeDocument rt file =
     (case file_arrayBuffer file of
        Inl error \<Rightarrow>
          ([FileArrayBuffer],
           Inr \<lparr>res_text = [],
                res_error = Some (error_message error
                  ''Failed to extract text from office document'')\<rparr>)
      | Inr arrayBuffer \<Rightarrow>
          (case buffer_from rt arrayBuffer of
             Inl error \<Rightarrow>
               ([FileArrayBuffer],
                Inr \<lparr>res_text = [],
                     res_error = Some (error_message error
                       ''Failed to extract text from office document'')\<rparr>)
           | Inr buffer \<Rightarrow>
               ([FileArrayBuffer, OfficeExtractText],
                Inr (case office_extractText rt buffer of
                       Inl error \<Rightarrow>
                         \<lparr>res_text = [],
                          res_error = Some (error_message error
                            ''Failed to extract text from office document'')\<rparr>
                     | Inr text \<Rightarrow> \<lparr>res_text = text, res_error = None\<rparr>))))"
  by (simp add: extractOfficeDocument_def read_arrayBuffer_def call_office_extractText_def
      io_defs split: sum.split)

lemma extractPlainText_returns:
  "\<exists>l r. extractPlainText rt file = (l, Inr r) \<and> (res_error r = None \<or> res_text r = [])"
  by (simp add: extractPlainText_eq split: sum.split)

lemma extractOfficeDocument_returns:
  "\<exists>l r. extractOfficeDocument rt file = (l, Inr r) \<and> (res_error r = None \<or> res_text r = [])"
  by (simp add: extractOfficeDocument_eq split: sum.split)

lemma extractText_try_returns:
  "\<exists>l r. extractText_try rt file = (l, Inr r) \<and> (res_error r = None \<or> res_text r = [])"
proof (cases "file_type file = ''text/plain'' \<or> file_type file = ''application/json''")
  case True
  then show ?thesis
    using extractPlainText_returns [of rt "file"] by (simp add: extractText_try_def)
next
  case False
  then show ?thesis
    using extractOfficeDocument_returns [of rt "file"]
    by (simp add: extractText_try_def io_return_def)
qed

lemma extractText_eq_try: "extractText rt file = extractText_try rt file"
  using extractText_try_returns [of rt "file"]
  by (auto simp add: extractText_def io_catch_def)

lemma isOfficeDocument_iff:
  "isOfficeDocument t \<longleftrightarrow>
     t \<in> {''application/vnd.openxmlformats-officedocument.wordprocessingml.document'',
           ''application/vnd.openxmlformats-officedocument.presentationml.presentation'',
           ''application/vnd.openxmlformats-officedocument.spreadsheetml.sheet'',
           ''application/pdf''}"
  by (simp add: isOfficeDocument_def supportedTypes_def)

lemma extractText_dispatch:
  "extractText rt file =
     (case spec_category (file_type file) of
        PlainText \<Rightarrow> extractPlainText rt file
      | OfficeDocument \<Rightarrow> extractOfficeDocument rt file
      | Unsupported \<Rightarrow>
          ([], Inr \<lparr>res_text = [],
                    res_error = Some (''Unsupported file type: '' @ file_type file)\<rparr>))"
  unfolding extractText_eq_try extractText_try_def spec_category_def isOfficeDocument_iff
  by (simp add: io_return_def)

section \<open>Properties of TextExtractor\<close>

text \<open>
  Claim C1. \<open>extractText\<close> never throws: for every runtime and every file it returns a
  result, in which an error comes with the empty text. Its \<^verbatim>\<open>catch\<close> block turns whatever
  the \<^verbatim>\<open>try\<close> block could throw into a result: any computation under it returns, and one
  that throws \<open>e\<close> returns the empty text with the message of \<open>e\<close>, or with
  \<^verbatim>\<open>Unknown error occurred\<close> when \<open>e\<close> is not an \<^verbatim>\<open>Error\<close>.
\<close>

theorem extractText_never_throws:
  "(\<exists>l r. extractText rt file = (l, Inr r) \<and> (res_error r = None \<or> res_text r = [])) \<and>
   (\<exists>l r. io_catch body extractText_catch = (l, Inr r)) \<and>
   io_catch (l0, Inl e) extractText_catch =
     (l0, Inr \<lparr>res_text = [],
               res_error = Some (case e of ErrorObj message \<Rightarrow> message
                                 | NonError \<Rightarrow> ''Unknown error occurred'')\<rparr>)"
proof -
  have "\<exists>l r. extractText rt file = (l, Inr r) \<and> (res_error r = None \<or> res_text r = [])"
    using extractText_try_returns [of rt "file"] by (simp add: extractText_eq_try)
  moreover have "\<exists>l r. io_catch body extractText_catch = (l, Inr r)"
    by (cases body)
      (auto simp add: io_catch_def extractText_catch_def io_return_def split: sum.split)
  moreover have "io_catch (l0, Inl e) extractText_catch =
     (l0, Inr \<lparr>res_text = [],
               res_error = Some (case e of ErrorObj message \<Rightarrow> message
                                 | NonError \<Rightarrow> ''Unknown error occurred'')\<rparr>)"
    by (simp add: io_catch_def extractText_catch_def io_return_def error_message_def)
  ultimately show ?thesis by simp
qed

text \<open>
  Claim C2. In every result that \<open>extractText\<close> returns, on any file and whatever the
  reads and the external extraction do, a present error field comes with the empty text.
\<close>

theorem extractText_error_implies_empty_text:
  assumes "extractText rt file = (l, Inr r)" and "res_error r \<noteq> None"
  shows "res_text r = []"
  using assms extractText_try_returns [of rt "file"]
  by (auto simp add: extractText_eq_try)

theorem extractText_error_implies_empty_text_witness:
  "extractText sample_runtime (unreadable_file ''application/pdf'' (ErrorObj ''denied'')) =
     ([FileArrayBuffer], Inr \<lparr>res_text = [], res_error = Some ''denied''\<rparr>) \<and>
   res_error \<lparr>res_text = [], res_error = Some ''denied''\<rparr> \<noteq> None \<and>
   res_text \<lparr>res_text = [], res_error = Some ''denied''\<rparr> = []"
proof -
  have run: "extractText sample_runtime (unreadable_file ''application/pdf'' (ErrorObj ''denied'')) =
     ([FileArrayBuffer], Inr \<lparr>res_text = [], res_error = Some ''denied''\<rparr>)"
    by (simp add: extractText_dispatch spec_category_def extractOfficeDocument_eq
        unreadable_file_def error_message_def)
  have present: "res_error \<lparr>res_text = [], res_error = Some ''denied''\<rparr> \<noteq> None"
    by simp
  from extractText_error_implies_empty_text [OF run present] run present
  show ?thesis by simp
qed





text \<open>
  Claim C7. For a file declared \<^verbatim>\<open>application/json\<close> whose text is read and does not
  parse, \<open>extractText\<close> returns the text as read, with no error.
\<close>

theorem extractText_malformed_json_passthrough:
  assumes "file_type file = ''application/json''"
    and "file_text file = Inr text"
    and "json_parse rt text = Inl e"
  shows "outcome (extractText rt file) = Inr \<lparr>res_text = text, res_error = None\<rparr>"
  using assms
  by (simp add: extractText_dispatch spec_category_def extractPlainText_eq outcome_def)

theorem extractText_malformed_json_passthrough_witness:
  "outcome (extractText sample_runtime (sample_file ''application/json'' ''{not json'')) =
     Inr \<lparr>res_text = ''{not json'', res_error = None\<rparr>"
proof -
  have t: "file_type (sample_file ''application/json'' ''{not json'') = ''application/json''"
    by (simp add: sample_file_def)
  have c: "file_text (sample_file ''application/json'' ''{not json'') = Inr ''{not json''"
    by (simp add: sample_file_def)
  have p: "json_parse sample_runtime ''{not json'' = Inl (ErrorObj ''SyntaxError'')"
    by (simp add: sample_runtime_def sample_json_parse_def)
  from extractText_malformed_json_passthrough [OF t c p] show ?thesis .
qed

text \<open>
  Claim C8. For a file whose declared type is none of \<^verbatim>\<open>text/plain\<close>,
  \<^verbatim>\<open>application/json\<close> and the four office and document types, \<open>extractText\<close> returns
  the empty text and the error \<^verbatim>\<open>Unsupported file type: \<close> followed by the declared type,
  and performs no read of the file and no call of the extraction library.
\<close>

theorem extractText_unsupported:
  assumes "file_type file \<notin>
     {''text/plain'', ''application/json'',
      ''application/vnd.openxmlformats-officedocument.wordprocessingml.document'',
      ''application/vnd.openxmlformats-officedocument.presentationml.presentation'',
      ''application/vnd.openxmlformats-officedocument.spreadsheetml.sheet'',
      ''application/pdf''}"
  shows "extractText rt file =
     ([], Inr \<lparr>res_text = [], res_error = Some (''Unsupported file type: '' @ file_type file)\<rparr>)"
  using assms unfolding extractText_eq_try extractText_try_def isOfficeDocument_iff
  by (simp add: io_return_def)

theorem extractText_unsupported_witness:
  "extractText sample_runtime (sample_file ''image/png'' ''PNG'') =
     ([], Inr \<lparr>res_text = [], res_error = Some ''Unsupported file type: image/png''\<rparr>)"
  using extractText_unsupported [of "sample_file ''image/png'' ''PNG''" sample_runtime]
  by (simp add: sample_file_def)

text \<open>
  Claim C9. Which branch \<open>extractText\<close> takes is decided by the declared type alone:
  for two files of the same declared type, whatever their contents, both are handled by
  \<open>extractPlainText\<close>, or both by \<open>extractOfficeDocument\<close>, or both get the same
  unsupported-type result with no event performed; and which of the three it is, is the
  category that the specification's rule gives to the declared type.
\<close>

theorem extractText_branch_by_declared_type:
  assumes "file_type f1 = file_type f2"
  shows "(case spec_category (file_type f1) of
            PlainText \<Rightarrow>
              extractText rt f1 = extractPlainText rt f1 \<and>
              extractText rt f2 = extractPlainText rt f2
          | OfficeDocument \<Rightarrow>
              extractText rt f1 = extractOfficeDocument rt f1 \<and>
              extractText rt f2 = extractOfficeDocument rt f2
          | Unsupported \<Rightarrow>
              extractText rt f1 = extractText rt f2 \<and> events (extractText rt f1) = [])"
  using assms by (simp add: extractText_dispatch events_def split: category.split)

theorem extractText_branch_by_declared_type_witness:
  "file_type (sample_file ''application/json'' ''true'') =
     file_type (sample_file ''application/json'' ''{not json'') \<and>
   file_text (sample_file ''application/json'' ''true'') \<noteq>
     file_text (sample_file ''application/json'' ''{not json'') \<and>
   extractText sample_runtime (sample_file ''application/json'' ''true'') =
     extractPlainText sample_runtime (sample_file ''application/json'' ''true'') \<and>
   extractText sample_runtime (sample_file ''application/json'' ''{not json'') =
     extractPlainText sample_runtime (sample_file ''application/json'' ''{not json'')"
proof -
  have same: "file_type (sample_file ''application/json'' ''true'') =
      file_type (sample_file ''application/json'' ''{not json'')"
    by (simp add: sample_file_def)
  have cat: "spec_category (file_type (sample_file ''application/json'' ''true'')) = PlainText"
    by (simp add: sample_file_def spec_category_def)
  from extractText_branch_by_declared_type [OF same, of sample_runtime] cat
  have "extractText sample_runtime (sample_file ''application/json'' ''true'') =
          extractPlainText sample_runtime (sample_file ''application/json'' ''true'') \<and>
        extractText sample_runtime (sample_file ''application/json'' ''{not json'') =
          extractPlainText sample_runtime (sample_file ''application/json'' ''{not json'')"
    by simp
  moreover have "file_text (sample_file ''application/json'' ''true'') \<noteq>
      file_text (sample_file ''application/json'' ''{not json'')"
    by (simp add: sample_file_def)
  ultimately show ?thesis using same by simp
qed

section \<open>Properties of FileHandler.processFile\<close>

lemma processFile_outcome:
  assumes "extractText rt file = (l, Inr r)"
  shows "outcome (processFile rt file) =
     (case res_error r of
        Some message \<Rightarrow> if message \<noteq> [] then Inl (ErrorObj message) else Inr (res_text r)
      | None \<Rightarrow> Inr (res_text r))"
  using assms
  by (simp add: processFile_def io_bind_def io_throw_def io_return_def outcome_def
      split: option.split)

text \<open>
  Claim C3. With \<open>r\<close> the result of \<open>extractText\<close> on the file: \<open>processFile\<close> throws
  if and only if \<open>r\<close> has an error that is not the empty string; it then throws an
  \<^verbatim>\<open>Error\<close> whose message is that error; otherwise it returns the text of \<open>r\<close>.
\<close>

theorem processFile_raises_iff_error:
  "\<exists>l r. extractText rt file = (l, Inr r) \<and>
     ((\<exists>e. outcome (processFile rt file) = Inl e) \<longleftrightarrow>
        (\<exists>message. res_error r = Some message \<and> message \<noteq> [])) \<and>
     (\<forall>message. res_error r = Some message \<and> message \<noteq> [] \<longrightarrow>
        outcome (processFile rt file) = Inl (ErrorObj message)) \<and>
     ((\<nexists>message. res_error r = Some message \<and> message \<noteq> []) \<longrightarrow>
        outcome (processFile rt file) = Inr (res_text r))"
proof -
  obtain l r where lr: "extractText rt file = (l, Inr r)"
    using extractText_try_returns [of rt "file"] by (auto simp add: extractText_eq_try)
  show ?thesis
    by (cases "res_error r") (auto simp add: lr processFile_outcome [OF lr])
qed

theorem processFile_raises_iff_error_witness:
  "outcome (processFile sample_runtime (sample_file ''image/png'' ''PNG'')) =
     Inl (ErrorObj ''Unsupported file type: image/png'') \<and>
   outcome (processFile sample_runtime (sample_file ''text/plain'' ''first'')) = Inr ''first''"
proof -
  have png: "extractText sample_runtime (sample_file ''image/png'' ''PNG'') =
      ([], Inr \<lparr>res_text = [], res_error = Some ''Unsupported file type: image/png''\<rparr>)"
    by (simp add: extractText_dispatch spec_category_def sample_file_def)
  have plain: "extractText sample_runtime (sample_file ''text/plain'' ''first'') =
      ([FileText], Inr \<lparr>res_text = ''first'', res_error = None\<rparr>)"
    by (simp add: extractText_dispatch spec_category_def extractPlainText_eq sample_file_def)
  from processFile_raises_iff_error [of sample_runtime "sample_file ''image/png'' ''PNG''"]
  have a: "outcome (processFile sample_runtime (sample_file ''image/png'' ''PNG'')) =
      Inl (ErrorObj ''Unsupported file type: image/png'')"
    by (simp add: png)
  from processFile_raises_iff_error [of sample_runtime "sample_file ''text/plain'' ''first''"]
  have b: "outcome (processFile sample_runtime (sample_file ''text/plain'' ''first'')) =
      Inr ''first''"
    by (simp add: plain)
  from a b show ?thesis by simp
qed

section \<open>The promise that \<^verbatim>\<open>Promise.all\<close> returns\<close>

text \<open>
  After any run, the slots, the counter and the state of the returned promise are
  functions of the set and of the order of the indices settled so far. The proofs go
  along the run, by induction on the list of indices from its end.
\<close>

lemma all_run_snoc: "all_run outs (xs @ [i]) = all_settle outs (all_run outs xs) i"
  by (simp add: all_run_def)

lemma all_settle_length:
  "length (all_values (all_settle outs s i)) = length (all_values s)"
  by (simp add: all_settle_def Let_def split: sum.split)

lemma all_run_length: "length (all_values (all_run outs xs)) = length outs"
proof (induction xs rule: rev_induct)
  case Nil
  show ?case by (simp add: all_run_def all_start_def)
next
  case (snoc i xs)
  then show ?case by (simp add: all_run_snoc all_settle_length)
qed

lemma all_run_values:
  "k < length outs \<Longrightarrow> all_values (all_run outs xs) ! k = slot outs xs k"
proof (induction xs rule: rev_induct)
  case Nil
  then show ?case by (simp add: all_run_def all_start_def slot_def)
next
  case (snoc i xs)
  have len: "length (all_values (all_run outs xs)) = length outs"
    by (rule all_run_length)
  show ?case
  proof (cases "length outs \<le> i")
    case True
    with snoc show ?thesis
      by (auto simp add: all_run_snoc all_settle_def slot_def)
  next
    case False
    with snoc len show ?thesis
      by (cases "outs ! i")
        (auto simp add: all_run_snoc all_settle_def slot_def Let_def nth_list_update
          split: sum.splits if_splits)
  qed
qed


lemma filled_subset: "filled outs xs \<subseteq> {..<length outs}"
  by (auto simp add: filled_def)

lemma finite_filled: "finite (filled outs xs)"
  by (rule finite_subset [OF filled_subset]) simp

lemma card_filled_le: "card (filled outs xs) \<le> length outs"
  using card_mono [OF _ filled_subset, of outs xs] by simp

lemma filled_snoc:
  "filled outs (xs @ [i]) =
     (if i < length outs \<and> \<not> isl (outs ! i) then insert i (filled outs xs) else filled outs xs)"
  by (auto simp add: filled_def)

lemma all_run_remaining:
  "all_remaining (all_run outs xs) = length outs - card (filled outs xs)"
proof (induction xs rule: rev_induct)
  case Nil
  show ?case by (simp add: all_run_def all_start_def filled_def)
next
  case (snoc i xs)
  show ?case
  proof (cases "length outs \<le> i")
    case True
    with snoc show ?thesis
      by (simp add: all_run_snoc all_settle_def filled_snoc)
  next
    case range: False
    show ?thesis
    proof (cases "outs ! i")
      case (Inl e)
      with range snoc show ?thesis
        by (simp add: all_run_snoc all_settle_def filled_snoc)
    next
      case (Inr v)
      have val: "all_values (all_run outs xs) ! i = slot outs xs i"
        using range by (simp add: all_run_values)
      show ?thesis
      proof (cases "i \<in> set xs")
        case True
        then have "i \<in> filled outs xs" using range Inr by (simp add: filled_def)
        then have "insert i (filled outs xs) = filled outs xs" by auto
        with True range Inr snoc val show ?thesis
          by (simp add: all_run_snoc all_settle_def filled_snoc slot_def)
      next
        case False
        then have "i \<notin> filled outs xs" by (simp add: filled_def)
        then have "card (insert i (filled outs xs)) = Suc (card (filled outs xs))"
          using finite_filled [of outs xs] by simp
        with False range Inr snoc val show ?thesis
          by (simp add: all_run_snoc all_settle_def filled_snoc slot_def Let_def)
      qed
    qed
  qed
qed

lemma find_snoc:
  "find P (xs @ [x]) = (case find P xs of Some y \<Rightarrow> Some y | None \<Rightarrow> if P x then Some x else None)"
  by (induction xs) auto

lemma filled_full_iff:
  assumes "find (rejects outs) xs = None"
  shows "card (filled outs xs) = length outs \<longleftrightarrow> {..<length outs} \<subseteq> set xs"
proof
  assume "card (filled outs xs) = length outs"
  then have "filled outs xs = {..<length outs}"
    using card_subset_eq [OF _ filled_subset, of outs xs] by simp
  then show "{..<length outs} \<subseteq> set xs" by (auto simp add: filled_def)
next
  assume sub: "{..<length outs} \<subseteq> set xs"
  have "\<not> isl (outs ! k)" if "k < length outs" for k
  proof -
    from that sub have "k \<in> set xs" by auto
    with assms that show ?thesis by (auto simp add: find_None_iff rejects_def)
  qed
  with sub have "filled outs xs = {..<length outs}" by (auto simp add: filled_def)
  then show "card (filled outs xs) = length outs" by simp
qed

lemma all_values_full:
  assumes "find (rejects outs) xs = None" and "{..<length outs} \<subseteq> set xs"
  shows "map the (all_values (all_run outs xs)) = map projr outs"
proof (rule nth_equalityI)
  show "length (map the (all_values (all_run outs xs))) = length (map projr outs)"
    by (simp add: all_run_length)
next
  fix k
  assume "k < length (map the (all_values (all_run outs xs)))"
  then have k: "k < length outs" by (simp add: all_run_length)
  with assms have "k \<in> set xs" and "\<not> isl (outs ! k)"
    by (auto simp add: find_None_iff rejects_def)
  then obtain v where "outs ! k = Inr v" by (cases "outs ! k") auto
  with k \<open>k \<in> set xs\<close> show "map the (all_values (all_run outs xs)) ! k = map projr outs ! k"
    by (simp add: all_run_length all_run_values slot_def)
qed

lemma all_run_settled: "all_settled (all_run outs xs) = all_outcome outs xs"
proof (induction xs rule: rev_induct)
  case Nil
  show ?case by (auto simp add: all_run_def all_start_def all_outcome_def)
next
  case (snoc i xs)
  show ?case
  proof (cases "length outs \<le> i")
    case True
    then have "{..<length outs} \<subseteq> set (xs @ [i]) \<longleftrightarrow> {..<length outs} \<subseteq> set xs"
      by auto
    with True snoc show ?thesis
      by (simp add: all_run_snoc all_settle_def all_outcome_def find_snoc rejects_def
          split: option.split)
  next
    case range: False
    show ?thesis
    proof (cases "outs ! i")
      case (Inl e)
      then have rej: "rejects outs i" using range by (simp add: rejects_def)
      show ?thesis
      proof (cases "find (rejects outs) xs")
        case None
        have "\<not> {..<length outs} \<subseteq> set xs"
        proof
          assume "{..<length outs} \<subseteq> set xs"
          with range have "i \<in> set xs" by auto
          with None rej show False by (auto simp add: find_None_iff)
        qed
        with None range Inl rej snoc show ?thesis
          by (simp add: all_run_snoc all_settle_def all_outcome_def find_snoc)
      next
        case (Some j)
        with range Inl snoc show ?thesis
          by (simp add: all_run_snoc all_settle_def all_outcome_def find_snoc)
      qed
    next
      case (Inr v)
      then have nrej: "\<not> rejects outs i" by (simp add: rejects_def)
      have val: "all_values (all_run outs xs) ! i = slot outs xs i"
        using range by (simp add: all_run_values)
      show ?thesis
      proof (cases "i \<in> set xs")
        case True
        then have "set (xs @ [i]) = set xs" by auto
        with True range Inr nrej snoc val show ?thesis
          by (simp add: all_run_snoc all_settle_def all_outcome_def find_snoc slot_def
              split: option.split)
      next
        case fresh: False
        show ?thesis
        proof (cases "find (rejects outs) xs")
          case (Some j)
          with fresh range Inr nrej snoc val show ?thesis
            by (simp add: all_run_snoc all_settle_def all_outcome_def find_snoc slot_def Let_def)
        next
          case None
          have "i \<in> {..<length outs}" using range by simp
          with fresh have "\<not> {..<length outs} \<subseteq> set xs" by blast
          then have before: "all_settled (all_run outs xs) = None"
            using snoc None by (simp add: all_outcome_def)
          have none': "find (rejects outs) (xs @ [i]) = None"
            using None nrej by (simp add: find_snoc)
          have rem: "all_remaining (all_run outs (xs @ [i])) = length outs - card (filled outs (xs @ [i]))"
            by (rule all_run_remaining)
          have zero: "all_remaining (all_run outs (xs @ [i])) = 0 \<longleftrightarrow> {..<length outs} \<subseteq> set (xs @ [i])"
            using rem card_filled_le [of outs "xs @ [i]"] filled_full_iff [OF none'] by auto
          have step: "all_run outs (xs @ [i]) =
              \<lparr>all_values = (all_values (all_run outs xs))[i := Some v],
               all_remaining = all_remaining (all_run outs xs) - 1,
               all_settled = (if all_remaining (all_run outs xs) - 1 = 0
                  then Some (Inr (map the ((all_values (all_run outs xs))[i := Some v])))
                  else None)\<rparr>"
            using fresh range Inr val before
            by (simp add: all_run_snoc all_settle_def slot_def Let_def)
          show ?thesis
          proof (cases "{..<length outs} \<subseteq> set (xs @ [i])")
            case True
            with zero have z: "all_remaining (all_run outs (xs @ [i])) = 0" by simp
            have "map the (all_values (all_run outs (xs @ [i]))) = map projr outs"
              by (rule all_values_full [OF none' True])
            moreover have "all_settled (all_run outs (xs @ [i])) =
                Some (Inr (map the (all_values (all_run outs (xs @ [i])))))"
              using z by (simp add: step)
            ultimately show ?thesis using none' True by (simp add: all_outcome_def)
          next
            case False
            with zero have "all_remaining (all_run outs (xs @ [i])) \<noteq> 0" by simp
            then have "all_settled (all_run outs (xs @ [i])) = None"
              by (simp add: step)
            with none' False show ?thesis by (simp add: all_outcome_def)
          qed
        qed
      qed
    qed
  qed
qed

lemma promise_all_eq: "promise_all outs order = all_outcome outs order"
  by (simp add: promise_all_def all_run_settled)

section \<open>Properties of FileHandler.processFiles\<close>

lemma processFiles_eq:
  "processFiles rt order files =
     all_outcome (map (\<lambda>file. outcome (processFile rt file)) files) order"
  by (simp add: processFiles_def promise_all_eq)

lemma find_rejects_map:
  "find (rejects (map f xs)) order = find (\<lambda>i. i < length xs \<and> isl (f (xs ! i))) order"
  by (rule find_cong) (auto simp add: rejects_def)

text \<open>
  Claim C10. On the empty sequence of files \<open>processFiles\<close> resolves, with the empty
  sequence.
\<close>

theorem processFiles_empty: "processFiles rt order [] = Some (Inr [])"
proof -
  have "find (rejects ([] :: (thrown + string) list)) order = None"
    by (simp add: find_None_iff rejects_def)
  then show ?thesis
    by (simp add: processFiles_eq all_outcome_def)
qed

text \<open>
  Claim C4. When \<open>processFile\<close> returns on every file of the sequence, then in whatever
  order the per-file promises settle (\<open>order\<close> lists every index), \<open>processFiles\<close>
  resolves with a sequence as long as the input whose \<open>i\<close>-th element is what
  \<open>processFile\<close> returns on the \<open>i\<close>-th file, the text of the result of \<open>extractText\<close>
  on it.
\<close>

theorem processFiles_all_succeed:
  assumes settle: "\<forall>i<length files. i \<in> set order"
    and ok: "\<forall>file\<in>set files. \<exists>text. outcome (processFile rt file) = Inr text"
  shows "\<exists>texts. processFiles rt order files = Some (Inr texts) \<and>
           length texts = length files \<and>
           (\<forall>i<length files.
              outcome (processFile rt (files ! i)) = Inr (texts ! i) \<and>
              (\<exists>l r. extractText rt (files ! i) = (l, Inr r) \<and> texts ! i = res_text r))"
proof -
  let ?outs = "map (\<lambda>file. outcome (processFile rt file)) files"
  let ?texts = "map projr ?outs"
  have "\<not> rejects ?outs i" for i
  proof (cases "i < length files")
    case True
    then have "files ! i \<in> set files" by simp
    with ok obtain t where "outcome (processFile rt (files ! i)) = Inr t" by blast
    with True show ?thesis by (simp add: rejects_def)
  next
    case False
    then show ?thesis by (simp add: rejects_def)
  qed
  then have none: "find (rejects ?outs) order = None"
    by (simp add: find_None_iff)
  have sub: "{..<length ?outs} \<subseteq> set order"
    using settle by auto
  have res: "processFiles rt order files = Some (Inr ?texts)"
    using none sub by (simp add: processFiles_eq all_outcome_def)
  have each: "outcome (processFile rt (files ! i)) = Inr (?texts ! i) \<and>
      (\<exists>l r. extractText rt (files ! i) = (l, Inr r) \<and> ?texts ! i = res_text r)"
    if i: "i < length files" for i
  proof -
    from i ok obtain t where t: "outcome (processFile rt (files ! i)) = Inr t"
      by (meson nth_mem)
    obtain l r where lr: "extractText rt (files ! i) = (l, Inr r)"
      using extractText_try_returns [of rt "files ! i"] by (auto simp add: extractText_eq_try)
    from t processFile_outcome [OF lr] have "t = res_text r"
      by (auto split: option.splits if_splits)
    with i t lr show ?thesis by simp
  qed
  from res each show ?thesis by auto
qed

theorem processFiles_all_succeed_witness:
  "processFiles sample_runtime [2, 0, 1] sample_batch = Some (Inr [''first'', ''true'', ''extracted''])"
proof -
  have p0: "outcome (processFile sample_runtime (sample_file ''text/plain'' ''first'')) = Inr ''first''"
    by (simp add: processFile_def extractText_dispatch spec_category_def extractPlainText_eq
        sample_file_def io_defs outcome_def)
  have p1: "outcome (processFile sample_runtime (sample_file ''application/json'' ''true'')) = Inr ''true''"
    by (simp add: processFile_def extractText_dispatch spec_category_def extractPlainText_eq
        sample_file_def sample_runtime_def sample_json_parse_def sample_json_stringify_def
        io_defs outcome_def)
  have p2: "outcome (processFile sample_runtime (sample_file ''application/pdf'' ''%PDF'')) = Inr ''extracted''"
    by (simp add: processFile_def extractText_dispatch spec_category_def extractOfficeDocument_eq
        sample_file_def sample_runtime_def io_defs outcome_def)
  have settle: "\<forall>i<length sample_batch. i \<in> set [2, 0, 1]"
    by (auto simp add: sample_batch_def less_Suc_eq)
  have ok: "\<forall>file\<in>set sample_batch. \<exists>text. outcome (processFile sample_runtime file) = Inr text"
    by (simp add: sample_batch_def p0 p1 p2)
  from processFiles_all_succeed [OF settle ok] obtain texts where
    res: "processFiles sample_runtime [2, 0, 1] sample_batch = Some (Inr texts)" and
    len: "length texts = length sample_batch" and
    each: "\<forall>i<length sample_batch.
      outcome (processFile sample_runtime (sample_batch ! i)) = Inr (texts ! i)"
    by blast
  from len obtain a b c where abc: "texts = [a, b, c]"
    by (auto simp add: sample_batch_def length_Suc_conv)
  from each [rule_format, of 0] each [rule_format, of 1] each [rule_format, of 2]
  have "a = ''first''" "b = ''true''" "c = ''extracted''"
    by (simp_all add: abc sample_batch_def p0 p1 p2)
  with abc res show ?thesis by simp
qed

text \<open>
  Claim C5, as amended. When, among the files whose promises settle (the indices in
  \<open>order\<close>), there is one on which \<open>extractText\<close> returns an error that is not the empty
  string, \<open>processFiles\<close> rejects, whether or not the other files have settled, and
  with what \<open>processFile\<close> throws on the first index in \<open>order\<close> whose file fails: an
  \<^verbatim>\<open>Error\<close> whose message is the error, not empty, of the result of \<open>extractText\<close> on that
  file. No sequence of texts is returned.
\<close>

theorem processFiles_fails_with_first_failure:
  assumes bad: "\<exists>i\<in>set order. i < length files \<and>
      (\<exists>l r message. extractText rt (files ! i) = (l, Inr r) \<and>
         res_error r = Some message \<and> message \<noteq> [])"
  shows "\<exists>i message.
           find (\<lambda>i. i < length files \<and> isl (outcome (processFile rt (files ! i)))) order = Some i \<and>
           (\<exists>l r. extractText rt (files ! i) = (l, Inr r) \<and> res_error r = Some message) \<and>
           message \<noteq> [] \<and>
           outcome (processFile rt (files ! i)) = Inl (ErrorObj message) \<and>
           processFiles rt order files = Some (Inl (ErrorObj message)) \<and>
           (\<nexists>texts. processFiles rt order files = Some (Inr texts))"
proof -
  let ?fails = "\<lambda>i. i < length files \<and> isl (outcome (processFile rt (files ! i)))"
  let ?outs = "map (\<lambda>file. outcome (processFile rt file)) files"
  from bad obtain k l0 r0 m0 where k: "k \<in> set order" "k < length files"
    and r0: "extractText rt (files ! k) = (l0, Inr r0)" "res_error r0 = Some m0" "m0 \<noteq> []"
    by blast
  from processFile_outcome [OF r0(1)] r0(2,3)
  have "isl (outcome (processFile rt (files ! k)))" by simp
  with k have "find ?fails order \<noteq> None"
    by (auto simp add: find_None_iff)
  then obtain i where first: "find ?fails order = Some i" by auto
  then have i: "i < length files" "isl (outcome (processFile rt (files ! i)))"
    by (auto simp add: find_Some_iff)
  obtain l r where lr: "extractText rt (files ! i) = (l, Inr r)"
    using extractText_try_returns [of rt "files ! i"] by (auto simp add: extractText_eq_try)
  from i(2) processFile_outcome [OF lr] obtain message where
    msg: "res_error r = Some message" "message \<noteq> []"
      "outcome (processFile rt (files ! i)) = Inl (ErrorObj message)"
    by (cases "res_error r") (auto split: if_splits)
  have "processFiles rt order files = Some (Inl (projl (?outs ! i)))"
    using first by (simp add: processFiles_eq all_outcome_def find_rejects_map)
  with i(1) msg(3) have res: "processFiles rt order files = Some (Inl (ErrorObj message))"
    by simp
  from first lr msg res show ?thesis by auto
qed

text \<open>
  In \<open>failing_batch\<close> the second file is of an unsupported type. Once its promise has
  settled, and before those of the other two files have, the whole is rejected.
\<close>

theorem processFiles_fails_with_first_failure_witness:
  "extractText sample_runtime (failing_batch ! 1) =
     ([], Inr \<lparr>res_text = [], res_error = Some ''Unsupported file type: image/png''\<rparr>) \<and>
   find (\<lambda>i. i < length failing_batch \<and>
       isl (outcome (processFile sample_runtime (failing_batch ! i)))) [1] = Some 1 \<and>
   processFiles sample_runtime [1] failing_batch =
     Some (Inl (ErrorObj ''Unsupported file type: image/png''))"
proof -
  have x1: "extractText sample_runtime (failing_batch ! 1) =
      ([], Inr \<lparr>res_text = [], res_error = Some ''Unsupported file type: image/png''\<rparr>)"
    by (simp add: failing_batch_def extractText_dispatch spec_category_def sample_file_def)
  have p1: "outcome (processFile sample_runtime (failing_batch ! 1)) =
      Inl (ErrorObj ''Unsupported file type: image/png'')"
    using processFile_outcome [OF x1] by simp
  have len: "1 < length failing_batch"
    by (simp add: failing_batch_def)
  have bad: "\<exists>i\<in>set [1]. i < length failing_batch \<and>
      (\<exists>l r message. extractText sample_runtime (failing_batch ! i) = (l, Inr r) \<and>
         res_error r = Some message \<and> message \<noteq> [])"
    using x1 len by simp
  have first: "find (\<lambda>i. i < length failing_batch \<and>
       isl (outcome (processFile sample_runtime (failing_batch ! i)))) [1] = Some 1"
    using p1 len by simp
  from processFiles_fails_with_first_failure [OF bad] first obtain message where
    "outcome (processFile sample_runtime (failing_batch ! 1)) = Inl (ErrorObj message)"
    "processFiles sample_runtime [1] failing_batch = Some (Inl (ErrorObj message))"
    by auto
  with p1 have "processFiles sample_runtime [1] failing_batch =
      Some (Inl (ErrorObj ''Unsupported file type: image/png''))"
    by simp
  with x1 first show ?thesis by simp
qed

text \<open>
  The claim as stated fails when an extraction fails with the empty string as its error:
  in \<open>empty_message_batch\<close> the read of the second file rejects with an \<^verbatim>\<open>Error\<close> of
  empty message, \<open>extractText\<close> returns the error \<^verbatim>\<open>''\<close> for it, \<open>processFile\<close> takes
  that for no error, and the batch resolves with the texts of both files.
\<close>

theorem processFiles_empty_error_counterexample:
  "outcome (extractText sample_runtime (empty_message_batch ! 1)) =
     Inr \<lparr>res_text = [], res_error = Some []\<rparr> \<and>
   processFiles sample_runtime [0, 1] empty_message_batch = Some (Inr [''a'', []])"
proof -
  have x0: "extractText sample_runtime (sample_file ''text/plain'' ''a'') =
      ([FileText], Inr \<lparr>res_text = ''a'', res_error = None\<rparr>)"
    by (simp add: extractText_dispatch spec_category_def extractPlainText_eq sample_file_def)
  have x1: "extractText sample_runtime (unreadable_file ''text/plain'' (ErrorObj [])) =
      ([FileText], Inr \<lparr>res_text = [], res_error = Some []\<rparr>)"
    by (simp add: extractText_dispatch spec_category_def extractPlainText_eq
        unreadable_file_def error_message_def)
  have p0: "outcome (processFile sample_runtime (sample_file ''text/plain'' ''a'')) = Inr ''a''"
    using processFile_outcome [OF x0] by simp
  have p1: "outcome (processFile sample_runtime (unreadable_file ''text/plain'' (ErrorObj []))) =
      Inr []"
    using processFile_outcome [OF x1] by simp
  have none: "find (rejects [Inr ''a'', Inr []]) [0, 1] = None"
    by (simp add: rejects_def)
  have sub: "{..<length [Inr ''a'' :: thrown + string, Inr []]} \<subseteq> set [0, 1]"
    by (auto simp add: less_Suc_eq)
  have "processFiles sample_runtime [0, 1] empty_message_batch = Some (Inr [''a'', []])"
    using none sub by (simp add: processFiles_eq all_outcome_def empty_message_batch_def p0 p1)
  with x1 show ?thesis
    by (simp add: empty_message_batch_def outcome_def)
qed

end
